theory Spec2Isabelle
  imports Complex_Main "HOL-Library.Extended_Nat"
begin

section \<open>The game's event hooks over the physics engine's world\<close>

text \<open>
  The source is the constructor of class \<open>Game\<close> (game.js), which registers three
  handlers on a matter.js engine: \<open>beforeUpdate\<close>, \<open>afterUpdate\<close> and
  \<open>collisionStart\<close>. The handlers read and write fields of engine objects that are
  shared by reference, so the model keeps an explicit store: every body and every vector
  object has an address, and a field that holds an object holds its address.

  Coordinates, masses and angles are idealised as reals. The damage counter
  \<open>shockAbsorbed\<close> is kept as the double it is: the source builds it from \<open>0\<close>
  and \<open>Math.floor\<close> results by additions only, so it holds a natural number or
  \<open>Infinity\<close>, and its additions round as additions of doubles do.
\<close>

subsection \<open>Data\<close>

type_synonym ref = nat

text \<open>A matter.js vector object \<open>{x, y}\<close>.\<close>

datatype vector = Vector (vec_x: real) (vec_y: real)

text \<open>
  The fields of a matter.js body that the handlers touch. \<open>velocity\<close> is the address of
  the body's velocity object. \<open>velocityPrev\<close> and \<open>shockAbsorbed\<close> are the two
  fields the game adds; both are absent (\<open>undefined\<close>) on a fresh body, which is
  \<open>None\<close> here. For \<open>shockAbsorbed\<close>, \<open>None\<close> also stands for \<open>NaN\<close>: the
  three operations the source applies to the field (\<open>|| 0\<close>, \<open>+=\<close>, \<open>> 500\<close>)
  treat \<open>undefined\<close> and \<open>NaN\<close> alike. \<open>Some \<infinity>\<close> is \<open>Infinity\<close>.
\<close>

record body =
  label :: string
  isStatic :: bool
  mass :: real
  velocity :: ref
  velocityPrev :: "ref option"
  shockAbsorbed :: "enat option"
  parts :: "ref list"
  parent :: ref
  angle :: real
  isSleeping :: bool

text \<open>
  A matter.js composite: its own list of bodies and its child composites. The world is
  the root composite.
\<close>

datatype composite = Composite (cbodies: "ref list") (ccomposites: "composite list")

record state =
  body_at :: "ref \<Rightarrow> body"
  vector_at :: "ref \<Rightarrow> vector"
  world :: composite

text \<open>A collision pair as the engine reports it.\<close>

record pair =
  bodyA :: ref
  bodyB :: ref

datatype error = TypeError

subsection \<open>The engine primitives the handlers call\<close>

text \<open>
  \<open>Matter.Vector.mult\<close>, \<open>Matter.Vector.sub\<close> and \<open>Matter.Vector.magnitude\<close>, over the
  reals: the products, the differences and the square root are the exact ones, where the
  code rounds each to a double, and \<open>NaN\<close> and infinite coordinates have no
  counterpart. The statements below take the shock as a parameter, or compute it from
  inputs whose arithmetic is exact in doubles as well (\<open>3 * 2\<close>, \<open>x * 0\<close>,
  \<open>0 - x\<close>, \<open>sqrt 36\<close>).
\<close>

definition mult :: "vector \<Rightarrow> real \<Rightarrow> vector" where
  "mult v k = Vector (vec_x v * k) (vec_y v * k)"

definition sub :: "vector \<Rightarrow> vector \<Rightarrow> vector" where
  "sub a b = Vector (vec_x a - vec_x b) (vec_y a - vec_y b)"

definition magnitude :: "vector \<Rightarrow> real" where
  "magnitude v = sqrt (vec_x v * vec_x v + vec_y v * vec_y v)"

text \<open>
  \<open>Matter.Composite.allBodies\<close>: a fresh array of the composite's bodies followed by
  those of its child composites, recursively. The handlers iterate over this array, so a
  removal during the loop does not change what the loop visits.
\<close>

fun allBodies :: "composite \<Rightarrow> ref list" where
  "allBodies (Composite bs cs) = bs @ concat (map allBodies cs)"

text \<open>
  \<open>Matter.Composite.remove(composite, body, true)\<close>: the first occurrence of the body
  is taken out of the composite's own list (\<open>indexOf\<close> and \<open>splice\<close>), and with
  \<open>deep = true\<close> the same is done in every child composite, recursively.
\<close>

fun removeBody :: "composite \<Rightarrow> ref \<Rightarrow> composite" where
  "removeBody (Composite bs cs) b = Composite (remove1 b bs) (map (\<lambda>c. removeBody c b) cs)"

subsection \<open>Field reads and writes\<close>

definition set_velocityPrev :: "ref \<Rightarrow> ref option \<Rightarrow> state \<Rightarrow> state" where
  "set_velocityPrev p v s = s\<lparr>body_at := (body_at s)(p := (body_at s p)\<lparr>velocityPrev := v\<rparr>)\<rparr>"

definition set_angle :: "ref \<Rightarrow> real \<Rightarrow> state \<Rightarrow> state" where
  "set_angle p a s = s\<lparr>body_at := (body_at s)(p := (body_at s p)\<lparr>angle := a\<rparr>)\<rparr>"

definition set_shockAbsorbed :: "ref \<Rightarrow> enat option \<Rightarrow> state \<Rightarrow> state" where
  "set_shockAbsorbed p v s = s\<lparr>body_at := (body_at s)(p := (body_at s p)\<lparr>shockAbsorbed := v\<rparr>)\<rparr>"

subsection \<open>The arithmetic of \<open>shockAbsorbed\<close>\<close>

text \<open>
  A double has a significand of 53 bits. Every natural number below \<open>2 ^ 53\<close> is a
  double; from there on the doubles are the multiples of the unit in the last place,
  which is 2 up to \<open>2 ^ 54\<close>, 4 up to \<open>2 ^ 55\<close>, and so on.
\<close>

fun ulp :: "nat \<Rightarrow> nat" where
  "ulp n = (if n < 2 ^ 53 then 1 else 2 * ulp (n div 2))"

text \<open>The multiple of \<open>q\<close> nearest to \<open>n\<close>; of two equally near, the even multiple.\<close>

definition round_even :: "nat \<Rightarrow> nat \<Rightarrow> nat" where
  "round_even n q =
     (let lo = (n div q) * q; r = n mod q
      in if 2 * r < q then lo
         else if q < 2 * r then lo + q
         else if even (n div q) then lo else lo + q)"

text \<open>
  The double nearest to the natural number \<open>n\<close>. The largest finite double is
  \<open>2 ^ 1024 - 2 ^ 971\<close>; what rounds to \<open>2 ^ 1024\<close> or more is \<open>Infinity\<close>.
\<close>

definition to_double :: "nat \<Rightarrow> enat" where
  "to_double n = (let r = round_even n (ulp n) in if r < 2 ^ 1024 then enat r else \<infinity>)"

text \<open>\<open>v + w\<close> on two such doubles: the exact sum, rounded.\<close>

fun dadd :: "enat \<Rightarrow> enat \<Rightarrow> enat" where
  "dadd (enat a) (enat b) = to_double (a + b)"
| "dadd _ _ = \<infinity>"

text \<open>
  \<open>Math.floor(mag)\<close>. The magnitude is a square root and so not negative. The floor of
  a double is a double; the ideal real of the model is taken to the nearest one.
\<close>

definition floor_num :: "real \<Rightarrow> enat" where
  "floor_num x = to_double (nat \<lfloor>x\<rfloor>)"

text \<open>
  \<open>v || 0\<close> on a number: \<open>undefined\<close>, \<open>NaN\<close> and \<open>0\<close> give \<open>0\<close>, any other
  number is kept.
\<close>

fun or0 :: "enat option \<Rightarrow> enat" where
  "or0 None = 0"
| "or0 (Some n) = n"

text \<open>\<open>v + w\<close> on numbers: \<open>undefined\<close> or \<open>NaN\<close> on either side gives \<open>NaN\<close>.\<close>

fun js_plus :: "enat option \<Rightarrow> enat option \<Rightarrow> enat option" where
  "js_plus (Some m) (Some n) = Some (dadd m n)"
| "js_plus _ _ = None"

text \<open>\<open>v > 500\<close>: false on \<open>undefined\<close> and on \<open>NaN\<close>, true on \<open>Infinity\<close>.\<close>

fun gt500 :: "enat option \<Rightarrow> bool" where
  "gt500 None = False"
| "gt500 (Some n) = (n > 500)"

subsection \<open>The \<open>beforeUpdate\<close> handler (lines 37 to 48)\<close>

definition beforeUpdate_part :: "ref \<Rightarrow> state \<Rightarrow> state" where
  "beforeUpdate_part p s =
     (if label (body_at s p) = ''Projectile'' \<and> isSleeping (body_at s p)
      then s\<lparr>world := removeBody (world s) p\<rparr>
      else set_velocityPrev p (Some (velocity (body_at s p))) s)"

definition beforeUpdate_body :: "ref \<Rightarrow> state \<Rightarrow> state" where
  "beforeUpdate_body b s = fold beforeUpdate_part (parts (body_at s b)) s"

definition beforeUpdate :: "state \<Rightarrow> state" where
  "beforeUpdate s = fold beforeUpdate_body (allBodies (world s)) s"

subsection \<open>The \<open>afterUpdate\<close> handler (lines 50 to 64)\<close>

definition afterUpdate_part :: "ref \<Rightarrow> ref \<Rightarrow> state \<Rightarrow> state" where
  "afterUpdate_part b p s = set_angle p (angle (body_at s b)) s"

definition afterUpdate_body :: "ref \<Rightarrow> state \<Rightarrow> state" where
  "afterUpdate_body b s =
     (let s1 = (if length (parts (body_at s b)) > 1
                then fold (afterUpdate_part b) (parts (body_at s b)) s
                else s)
      in if label (body_at s1 b) = ''Block''
         then (if gt500 (shockAbsorbed (body_at s1 b))
               then s1\<lparr>world := removeBody (world s1) b\<rparr>
               else s1)
         else s1)"

definition afterUpdate :: "state \<Rightarrow> state" where
  "afterUpdate s = fold afterUpdate_body (allBodies (world s)) s"

subsection \<open>The \<open>collisionStart\<close> handler (lines 68 to 83)\<close>

text \<open>
  \<open>Matter.Vector.mult(body.velocityPrev, body.isStatic ? 0 : body.mass)\<close>. Reading
  \<open>.x\<close> of an absent \<open>velocityPrev\<close> throws a TypeError.
\<close>

definition momentum :: "state \<Rightarrow> ref \<Rightarrow> error + vector" where
  "momentum s b =
     (case velocityPrev (body_at s b) of
        None \<Rightarrow> Inl TypeError
      | Some r \<Rightarrow> Inr (mult (vector_at s r) (if isStatic (body_at s b) then 0 else mass (body_at s b))))"

text \<open>
  The four statements the loop body runs for one of the two bodies (lines 73 to 76, and
  again 78 to 81), in the source's order; every read sees the writes before it.
\<close>

definition absorb :: "ref \<Rightarrow> real \<Rightarrow> state \<Rightarrow> state" where
  "absorb b mag s =
     (let s1 = set_shockAbsorbed b (Some (or0 (shockAbsorbed (body_at s b)))) s;
          s2 = set_shockAbsorbed b (js_plus (shockAbsorbed (body_at s1 b)) (Some (floor_num mag))) s1;
          p = parent (body_at s2 b);
          s3 = set_shockAbsorbed p (Some (or0 (shockAbsorbed (body_at s2 p)))) s2;
          s4 = set_shockAbsorbed p
                 (js_plus (shockAbsorbed (body_at s3 p)) (shockAbsorbed (body_at s3 b))) s3
      in s4)"

text \<open>
  One pair. Both momenta are computed before the first write, so a pair that throws
  leaves the state as it found it.
\<close>

definition shock :: "state \<Rightarrow> pair \<Rightarrow> error + real" where
  "shock s pr =
     (case momentum s (bodyA pr) of
        Inl e \<Rightarrow> Inl e
      | Inr momentumA \<Rightarrow>
          (case momentum s (bodyB pr) of
             Inl e \<Rightarrow> Inl e
           | Inr momentumB \<Rightarrow> Inr (magnitude (sub momentumA momentumB))))"

definition collisionStart_pair :: "pair \<Rightarrow> state \<Rightarrow> error + state" where
  "collisionStart_pair pr s =
     (case shock s pr of
        Inl e \<Rightarrow> Inl e
      | Inr mag \<Rightarrow> Inr (absorb (bodyB pr) mag (absorb (bodyA pr) mag s)))"

text \<open>
  The loop over \<open>event.pairs\<close>. An exception ends the handler; the writes made for the
  earlier pairs stay, so the result is the state reached together with the error, if any.
\<close>

fun collisionStart :: "pair list \<Rightarrow> state \<Rightarrow> error option \<times> state" where
  "collisionStart [] s = (None, s)"
| "collisionStart (pr # prs) s =
     (case collisionStart_pair pr s of
        Inl e \<Rightarrow> (Some e, s)
      | Inr s' \<Rightarrow> collisionStart prs s')"

subsection \<open>What the engine guarantees about bodies\<close>

text \<open>
  \<open>Matter.Body.setParts\<close> puts a body first in its own \<open>parts\<close> and makes it the
  \<open>parent\<close> of every part; a body that is not compound has \<open>parts = [body]\<close> and is
  its own parent. \<open>owns s c\<close> says so for the body \<open>c\<close>.
\<close>

definition owns :: "state \<Rightarrow> ref \<Rightarrow> bool" where
  "owns s c \<longleftrightarrow>
     c \<in> set (parts (body_at s c)) \<and> (\<forall>p \<in> set (parts (body_at s c)). parent (body_at s p) = c)"

text \<open>A world whose bodies all have their parts in this shape.\<close>

definition wellformed :: "state \<Rightarrow> bool" where
  "wellformed s \<longleftrightarrow> (\<forall>c \<in> set (allBodies (world s)). owns s c)"

text \<open>
  A body object is in the world when it is one of the world's bodies or a part of one.
\<close>

definition in_world :: "state \<Rightarrow> ref \<Rightarrow> bool" where
  "in_world s p \<longleftrightarrow>
     p \<in> set (allBodies (world s)) \<or>
     (\<exists>c \<in> set (allBodies (world s)). p \<in> set (parts (body_at s c)))"

text \<open>
  The integrator, \<open>Matter.Body.update\<close>, is the engine's and not the game's. It writes the
  new velocity into the body's own velocity object
  (\<open>body.velocity.x = ...; body.velocity.y = ...\<close>): the object stays, its content
  changes. The new value is a parameter here.
\<close>

definition Body_update_velocity :: "ref \<Rightarrow> vector \<Rightarrow> state \<Rightarrow> state" where
  "Body_update_velocity b v s = s\<lparr>vector_at := (vector_at s)(velocity (body_at s b) := v)\<rparr>"

subsection \<open>Example worlds\<close>

text \<open>A body as the engine creates it: no damage recorded, angle 0, awake.\<close>

definition mk_body :: "string \<Rightarrow> bool \<Rightarrow> real \<Rightarrow> ref \<Rightarrow> ref option \<Rightarrow> ref list \<Rightarrow> ref \<Rightarrow> body" where
  "mk_body l st m v vp ps par =
     \<lparr>label = l, isStatic = st, mass = m, velocity = v, velocityPrev = vp,
      shockAbsorbed = None, parts = ps, parent = par, angle = 0, isSleeping = False\<rparr>"

text \<open>
  Two single-part blocks, each its own parent: body 0 (mass 2, previous velocity (3, 0))
  and body 1 (mass 1, at rest). Body \<open>r\<close> keeps its velocity object at address \<open>r\<close>.
\<close>

definition two_blocks :: state where
  "two_blocks =
     \<lparr>body_at = (\<lambda>r. if r = 0 then mk_body ''Block'' False 2 0 (Some 0) [0] 0
                     else mk_body ''Block'' False 1 r (Some r) [r] r),
      vector_at = (\<lambda>r. if r = 0 then Vector 3 0 else Vector 0 0),
      world = Composite [0, 1] []\<rparr>"

text \<open>
  Two compound bodies 2 and 3 (\<open>parts = [2, 0]\<close> and \<open>[3, 1]\<close>); the colliding
  parts are 0 (mass 2, previous velocity (3, 0)) and 1 (mass 1, at rest).
\<close>

definition two_compounds :: state where
  "two_compounds =
     \<lparr>body_at = (\<lambda>r. if r = 0 then mk_body ''Block'' False 2 0 (Some 0) [0] 2
                     else if r = 1 then mk_body ''Block'' False 1 1 (Some 1) [1] 3
                     else if r = 2 then mk_body ''Block'' False 4 2 (Some 2) [2, 0] 2
                     else mk_body ''Block'' False 2 r (Some r) [r, 1] r),
      vector_at = (\<lambda>r. if r = 0 then Vector 3 0 else Vector 0 0),
      world = Composite [2, 3] []\<rparr>"


text \<open>
  A world with a child composite: a block over the threshold (0), a block never hit (1),
  a compound block 2 with the extra part 3, turned by angle 1 while the part is still at
  angle 0, a sleeping projectile (4) and the ground (5).
\<close>

definition tower :: state where
  "tower =
     \<lparr>body_at = (\<lambda>r. if r = 0 then (mk_body ''Block'' False 2 0 (Some 0) [0] 0)\<lparr>shockAbsorbed := Some 501\<rparr>
                     else if r = 1 then mk_body ''Block'' False 2 1 (Some 1) [1] 1
                     else if r = 2 then (mk_body ''Block'' False 4 2 (Some 2) [2, 3] 2)\<lparr>angle := 1\<rparr>
                     else if r = 3 then mk_body ''Block'' False 2 3 (Some 3) [3] 2
                     else if r = 4 then (mk_body ''Projectile'' False 1 4 (Some 4) [4] 4)\<lparr>isSleeping := True\<rparr>
                     else mk_body ''Ground'' True 1000 r None [r] r),
      vector_at = (\<lambda>r. if r = 4 then Vector 1 2 else Vector 0 0),
      world = Composite [0, 1] [Composite [2, 4, 5] []]\<rparr>"

text \<open>A projectile in flight that no \<open>beforeUpdate\<close> pass has seen yet.\<close>

definition launched :: state where
  "launched =
     \<lparr>body_at = (\<lambda>r. if r = 0 then mk_body ''Projectile'' False 1 0 None [0] 0
                     else mk_body ''Ground'' True 1000 r None [r] r),
      vector_at = (\<lambda>r. if r = 0 then Vector 3 0 else Vector 0 0),
      world = Composite [0] []\<rparr>"


text \<open>
  The ground (body 1 and every other body but 0: static, one part, its own parent) with
  a counter that has reached \<open>2 ^ 53\<close>, hit by a block (body 0, mass 1, previous
  velocity (1, 0)).
\<close>

definition worn_ground :: state where
  "worn_ground =
     \<lparr>body_at = (\<lambda>r. if r = 0 then mk_body ''Block'' False 1 0 (Some 0) [0] 0
                     else (mk_body ''Ground'' True 1000 r (Some r) [r] r)
                            \<lparr>shockAbsorbed := Some 9007199254740992\<rparr>),
      vector_at = (\<lambda>r. if r = 0 then Vector 1 0 else Vector 0 0),
      world = Composite [0, 1] []\<rparr>"


section \<open>Properties of the \<open>collisionStart\<close> handler\<close>

lemma absorb_world: "world (absorb b mag s) = world s"
  by (simp add: absorb_def set_shockAbsorbed_def Let_def)

lemma absorb_vector_at: "vector_at (absorb b mag s) = vector_at s"
  by (simp add: absorb_def set_shockAbsorbed_def Let_def)

lemma absorb_frame:
  "body_at (absorb b mag s) r = (body_at s r)\<lparr>shockAbsorbed := shockAbsorbed (body_at (absorb b mag s) r)\<rparr>"
  by (simp add: absorb_def set_shockAbsorbed_def Let_def)

lemma absorb_shock:
  "shockAbsorbed (body_at (absorb b mag s) r) =
     (let p = parent (body_at s b); v = dadd (or0 (shockAbsorbed (body_at s b))) (floor_num mag)
      in if r = p then Some (dadd (if p = b then v else or0 (shockAbsorbed (body_at s p))) v)
         else if r = b then Some v
         else shockAbsorbed (body_at s r))"
  by (simp add: absorb_def set_shockAbsorbed_def Let_def)

lemma absorb_parent: "parent (body_at (absorb b mag s) r) = parent (body_at s r)"
  by (simp add: absorb_def set_shockAbsorbed_def Let_def)

lemma absorb_velocityPrev: "velocityPrev (body_at (absorb b mag s) r) = velocityPrev (body_at s r)"
  by (simp add: absorb_def set_shockAbsorbed_def Let_def)

lemma absorb_isStatic: "isStatic (body_at (absorb b mag s) r) = isStatic (body_at s r)"
  by (simp add: absorb_def set_shockAbsorbed_def Let_def)

lemma absorb_mass: "mass (body_at (absorb b mag s) r) = mass (body_at s r)"
  by (simp add: absorb_def set_shockAbsorbed_def Let_def)

lemma absorb_momentum: "momentum (absorb b mag s) r = momentum s r"
  unfolding momentum_def absorb_velocityPrev absorb_isStatic absorb_mass absorb_vector_at ..

lemma absorb_shock_unchanged: "shock (absorb b mag s) pr = shock s pr"
  unfolding shock_def absorb_momentum ..

lemma pair_shock_unchanged:
  "collisionStart_pair pr s = Inr s' \<Longrightarrow> shock s' pr' = shock s pr'"
  by (auto simp: collisionStart_pair_def absorb_shock_unchanged split: sum.splits)

lemma sqrt_36: "sqrt 36 = 6"
  using real_sqrt_abs2 [of 6] by simp

lemma shock_two_blocks: "shock two_blocks \<lparr>bodyA = 0, bodyB = 1\<rparr> = Inr 6"
  by (simp add: shock_def momentum_def two_blocks_def mk_body_def mult_def sub_def magnitude_def sqrt_36)

lemma shock_two_compounds: "shock two_compounds \<lparr>bodyA = 0, bodyB = 1\<rparr> = Inr 6"
  by (simp add: shock_def momentum_def two_compounds_def mk_body_def mult_def sub_def magnitude_def sqrt_36)



subsection \<open>Sums that are exact\<close>

declare ulp.simps [simp del]

lemma ulp_small: "n < 2 ^ 53 \<Longrightarrow> ulp n = 1"
  by (subst ulp.simps) simp

lemma round_even_1: "round_even n 1 = n"
  by (simp add: round_even_def)

lemma to_double_exact: "n < 2 ^ 53 \<Longrightarrow> to_double n = enat n"
proof -
  assume n: "n < 2 ^ 53"
  have "(2::nat) ^ 53 \<le> 2 ^ 1024" by (rule power_increasing) simp_all
  then have big: "n < 2 ^ 1024" using n by simp
  have "round_even n (ulp n) = n"
    using n by (simp only: ulp_small round_even_1)
  then show ?thesis
    unfolding to_double_def Let_def using big by (simp only: if_True)
qed

lemma to_double_twice: "n < 2 ^ 53 \<Longrightarrow> to_double (2 * n) = enat (2 * n)"
proof -
  assume n: "n < 2 ^ 53"
  have "(2::nat) ^ 54 \<le> 2 ^ 1024" by (rule power_increasing) simp_all
  moreover have "2 * n < 2 ^ 54" using n by simp
  ultimately have big: "2 * n < 2 ^ 1024" by simp
  have "ulp (2 * n) = 1 \<or> ulp (2 * n) = 2"
    using n by (subst ulp.simps) (simp add: ulp_small)
  then have "round_even (2 * n) (ulp (2 * n)) = 2 * n"
    by (auto simp: round_even_def)
  then show ?thesis
    unfolding to_double_def Let_def using big by (simp only: if_True)
qed

lemma dadd_exact: "a + b < 2 ^ 53 \<Longrightarrow> dadd (enat a) (enat b) = enat (a + b)"
  by (simp add: to_double_exact)

lemma dadd_self: "a < 2 ^ 53 \<Longrightarrow> dadd (enat a) (enat a) = enat (2 * a)"
  using to_double_twice [of a] by (simp add: mult_2)

lemma dadd_small: "dadd 0 6 = 6" "dadd 6 6 = 12" "dadd 6 12 = 18"
  by (simp_all add: to_double_exact numeral_eq_enat zero_enat_def)

lemma floor_num_6: "floor_num 6 = 6"
  by (simp add: floor_num_def to_double_exact numeral_eq_enat)

lemma floor_num_1: "floor_num 1 = 1"
  by (simp add: floor_num_def to_double_exact one_enat_def)

text \<open>\<open>2 ^ 53 + 1\<close> is not a double: the sum is \<open>2 ^ 53\<close> again.\<close>

lemma dadd_rounds: "dadd 9007199254740992 1 = 9007199254740992"
  by (simp add: to_double_def round_even_def ulp.simps numeral_eq_enat one_enat_def)

lemma dadd_doubles: "dadd 9007199254740992 9007199254740992 = 18014398509481984"
  by (simp add: to_double_def round_even_def ulp.simps numeral_eq_enat)

subsection \<open>One body, one pair\<close>

lemma absorb_other:
  "r \<noteq> b \<Longrightarrow> r \<noteq> parent (body_at s b) \<Longrightarrow>
   shockAbsorbed (body_at (absorb b mag s) r) = shockAbsorbed (body_at s r)"
  by (simp add: absorb_shock Let_def)

lemma collisionStart_single:
  "shock s pr = Inr mag \<Longrightarrow>
   collisionStart [pr] s = (None, absorb (bodyB pr) mag (absorb (bodyA pr) mag s))"
  by (simp add: collisionStart_pair_def)

text \<open>
  What \<open>absorb x\<close> leaves in the fields of \<open>x\<close> and of its parent is a function of what
  it finds in those two fields.
\<close>

lemma absorb_cong:
  assumes "parent (body_at s' x) = parent (body_at s x)"
    and "shockAbsorbed (body_at s' x) = shockAbsorbed (body_at s x)"
    and "shockAbsorbed (body_at s' (parent (body_at s x))) = shockAbsorbed (body_at s (parent (body_at s x)))"
    and "r = x \<or> r = parent (body_at s x)"
  shows "shockAbsorbed (body_at (absorb x mag s') r) = shockAbsorbed (body_at (absorb x mag s) r)"
  using assms by (auto simp: absorb_shock Let_def)

text \<open>
  In a pair, the other body \<open>y\<close> and its parent are different objects from \<open>x\<close> and
  its parent: then the pair does to the fields of \<open>x\<close> and of its parent what
  \<open>absorb x\<close> alone does.
\<close>

lemma pair_effect:
  assumes "x = a \<and> y = b \<or> x = b \<and> y = a"
    and "{x, parent (body_at s x)} \<inter> {y, parent (body_at s y)} = {}"
    and "r = x \<or> r = parent (body_at s x)"
  shows "shockAbsorbed (body_at (absorb b mag (absorb a mag s)) r)
           = shockAbsorbed (body_at (absorb x mag s) r)"
proof -
  have ne: "r \<noteq> y" "r \<noteq> parent (body_at s y)"
    "x \<noteq> y" "x \<noteq> parent (body_at s y)"
    "parent (body_at s x) \<noteq> y" "parent (body_at s x) \<noteq> parent (body_at s y)"
    using assms(2,3) by auto
  from assms(1) show ?thesis
  proof
    assume "x = a \<and> y = b"
    then have x: "x = a" and y: "y = b" by simp_all
    have "r \<noteq> b" "r \<noteq> parent (body_at (absorb a mag s) b)"
      using ne(1,2) by (simp_all add: y absorb_parent)
    then show ?thesis unfolding x by (rule absorb_other)
  next
    assume "x = b \<and> y = a"
    then have x: "x = b" and y: "y = a" by simp_all
    let ?m = "absorb a mag s"
    have "shockAbsorbed (body_at (absorb x mag ?m) r) = shockAbsorbed (body_at (absorb x mag s) r)"
    proof (rule absorb_cong)
      show "parent (body_at ?m x) = parent (body_at s x)" by (rule absorb_parent)
      show "shockAbsorbed (body_at ?m x) = shockAbsorbed (body_at s x)"
        unfolding y [symmetric] using ne(3,4) by (rule absorb_other)
      show "shockAbsorbed (body_at ?m (parent (body_at s x))) = shockAbsorbed (body_at s (parent (body_at s x)))"
        unfolding y [symmetric] using ne(5,6) by (rule absorb_other)
      show "r = x \<or> r = parent (body_at s x)" by (rule assms(3))
    qed
    then show ?thesis by (simp only: x)
  qed
qed

text \<open>
  The two fields after the pair: \<open>v\<close> is the body's own new total, and the parent's
  field receives \<open>v\<close> on top of what it holds then, which is \<open>v\<close> itself where the body
  is its own parent.
\<close>

lemma pair_values:
  assumes "x = a \<and> y = b \<or> x = b \<and> y = a"
    and "{x, parent (body_at s x)} \<inter> {y, parent (body_at s y)} = {}"
  shows "shockAbsorbed (body_at (absorb b mag (absorb a mag s)) (parent (body_at s x))) =
           Some (dadd (if parent (body_at s x) = x
                       then dadd (or0 (shockAbsorbed (body_at s x))) (floor_num mag)
                       else or0 (shockAbsorbed (body_at s (parent (body_at s x)))))
                      (dadd (or0 (shockAbsorbed (body_at s x))) (floor_num mag)))"
    and "parent (body_at s x) \<noteq> x \<Longrightarrow>
         shockAbsorbed (body_at (absorb b mag (absorb a mag s)) x) =
           Some (dadd (or0 (shockAbsorbed (body_at s x))) (floor_num mag))"
proof -
  have "shockAbsorbed (body_at (absorb b mag (absorb a mag s)) (parent (body_at s x)))
      = shockAbsorbed (body_at (absorb x mag s) (parent (body_at s x)))"
    using assms by (rule pair_effect) simp
  then show "shockAbsorbed (body_at (absorb b mag (absorb a mag s)) (parent (body_at s x))) =
           Some (dadd (if parent (body_at s x) = x
                       then dadd (or0 (shockAbsorbed (body_at s x))) (floor_num mag)
                       else or0 (shockAbsorbed (body_at s (parent (body_at s x)))))
                      (dadd (or0 (shockAbsorbed (body_at s x))) (floor_num mag)))"
    by (simp add: absorb_shock Let_def)
  assume p: "parent (body_at s x) \<noteq> x"
  have "shockAbsorbed (body_at (absorb b mag (absorb a mag s)) x)
      = shockAbsorbed (body_at (absorb x mag s) x)"
    using assms by (rule pair_effect) simp
  then show "shockAbsorbed (body_at (absorb b mag (absorb a mag s)) x) =
           Some (dadd (or0 (shockAbsorbed (body_at s x))) (floor_num mag))"
    using p by (simp add: absorb_shock Let_def)
qed


lemma shock_worn_ground: "shock worn_ground \<lparr>bodyA = 0, bodyB = 1\<rparr> = Inr 1"
  by (simp add: shock_def momentum_def worn_ground_def mk_body_def mult_def sub_def magnitude_def)



text \<open>
  C3, as stated, at the ground with a counter of \<open>2 ^ 53\<close> hit with shock 1: the sum
  \<open>2 ^ 53 + 1\<close> is not a double and rounds to \<open>2 ^ 53\<close>, so the field ends at
  \<open>2 ^ 54\<close> and not at \<open>2 * (2 ^ 53 + 1)\<close>.
\<close>

theorem own_parent_rounds_counterexample:
  "parent (body_at worn_ground 1) = 1
   \<and> shockAbsorbed (body_at worn_ground 1) = Some 9007199254740992
   \<and> shock worn_ground \<lparr>bodyA = 0, bodyB = 1\<rparr> = Inr 1 \<and> floor_num 1 = 1
   \<and> shockAbsorbed (body_at (snd (collisionStart [\<lparr>bodyA = 0, bodyB = 1\<rparr>] worn_ground)) 1)
       = Some 18014398509481984
   \<and> shockAbsorbed (body_at (snd (collisionStart [\<lparr>bodyA = 0, bodyB = 1\<rparr>] worn_ground)) 1)
       \<noteq> Some (2 * (9007199254740992 + 1))"
proof -
  let ?pr = "\<lparr>bodyA = 0, bodyB = 1\<rparr> :: pair"
  have p: "parent (body_at worn_ground 1) = 1" "parent (body_at worn_ground 0) = 0"
    "shockAbsorbed (body_at worn_ground 1) = Some 9007199254740992"
    by (simp_all add: worn_ground_def mk_body_def)
  have pos: "(1::nat) = bodyA ?pr \<and> (0::nat) = bodyB ?pr \<or> 1 = bodyB ?pr \<and> 0 = bodyA ?pr"
    by simp
  have apart: "{1, parent (body_at worn_ground 1)} \<inter> {0, parent (body_at worn_ground 0)} = {}"
    using p by simp
  have "collisionStart [?pr] worn_ground = (None, absorb (bodyB ?pr) 1 (absorb (bodyA ?pr) 1 worn_ground))"
    using shock_worn_ground by (rule collisionStart_single)
  then have "shockAbsorbed (body_at (snd (collisionStart [?pr] worn_ground)) (parent (body_at worn_ground 1)))
      = Some (dadd (if parent (body_at worn_ground 1) = 1
                       then dadd (or0 (shockAbsorbed (body_at worn_ground 1))) (floor_num 1)
                       else or0 (shockAbsorbed (body_at worn_ground (parent (body_at worn_ground 1)))))
                      (dadd (or0 (shockAbsorbed (body_at worn_ground 1))) (floor_num 1)))"
    using pair_values(1) [OF pos apart, of 1] by (simp only: snd_conv)
  then have r: "shockAbsorbed (body_at (snd (collisionStart [?pr] worn_ground)) 1) = Some 18014398509481984"
    using p by (simp add: floor_num_1 dadd_rounds dadd_doubles del: collisionStart.simps)
  show ?thesis
    using p shock_worn_ground r by (simp add: floor_num_1 del: collisionStart.simps)
qed

text \<open>
  C3, amended: a body that is its own parent has the part-level field and the
  parent-level field in one place, so one pair takes its \<open>shockAbsorbed\<close> from \<open>t\<close>
  to \<open>v + v\<close>, where \<open>v\<close> is the sum of \<open>t\<close> and the floored shock, both sums
  being sums of doubles. That is \<open>2 * (t + k)\<close> where \<open>t + k\<close> is below \<open>2 ^ 53\<close>.
  The engine pairs parts of different bodies only, which is the hypothesis on the two
  parents.
\<close>

theorem own_parent_counts_twice:
  assumes "bodyA pr = a \<or> bodyB pr = a"
    and "parent (body_at s a) = a"
    and "parent (body_at s (bodyA pr)) \<noteq> parent (body_at s (bodyB pr))"
    and "shock s pr = Inr mag"
  shows "fst (collisionStart [pr] s) = None
     \<and> shockAbsorbed (body_at (snd (collisionStart [pr] s)) a) =
         Some (dadd (dadd (or0 (shockAbsorbed (body_at s a))) (floor_num mag))
                    (dadd (or0 (shockAbsorbed (body_at s a))) (floor_num mag)))
     \<and> (or0 (shockAbsorbed (body_at s a)) = enat t \<and> floor_num mag = enat k \<and> t + k < 2 ^ 53
        \<longrightarrow> shockAbsorbed (body_at (snd (collisionStart [pr] s)) a) = Some (enat (2 * (t + k))))"
proof -
  obtain y where pos: "a = bodyA pr \<and> y = bodyB pr \<or> a = bodyB pr \<and> y = bodyA pr"
    using assms(1) by auto
  then have "parent (body_at s y) \<noteq> a"
    using assms(2,3) by auto
  moreover from this have "y \<noteq> a" using assms(2) by auto
  ultimately have apart: "{a, parent (body_at s a)} \<inter> {y, parent (body_at s y)} = {}"
    using assms(2) by auto
  have one: "collisionStart [pr] s = (None, absorb (bodyB pr) mag (absorb (bodyA pr) mag s))"
    using assms(4) by (rule collisionStart_single)
  have "shockAbsorbed (body_at (absorb (bodyB pr) mag (absorb (bodyA pr) mag s)) (parent (body_at s a))) =
           Some (dadd (if parent (body_at s a) = a
                       then dadd (or0 (shockAbsorbed (body_at s a))) (floor_num mag)
                       else or0 (shockAbsorbed (body_at s (parent (body_at s a)))))
                      (dadd (or0 (shockAbsorbed (body_at s a))) (floor_num mag)))"
    using pos apart by (rule pair_values(1))
  then have val: "shockAbsorbed (body_at (snd (collisionStart [pr] s)) a) =
         Some (dadd (dadd (or0 (shockAbsorbed (body_at s a))) (floor_num mag))
                    (dadd (or0 (shockAbsorbed (body_at s a))) (floor_num mag)))"
    unfolding one snd_conv by (simp add: assms(2))
  have "dadd (dadd (or0 (shockAbsorbed (body_at s a))) (floor_num mag))
             (dadd (or0 (shockAbsorbed (body_at s a))) (floor_num mag)) = enat (2 * (t + k))"
    if "or0 (shockAbsorbed (body_at s a)) = enat t" "floor_num mag = enat k" "t + k < 2 ^ 53"
    unfolding that(1,2) dadd_exact [OF that(3)] using that(3) by (rule dadd_self)
  then show ?thesis
    using val one by simp
qed

theorem own_parent_counts_twice_witness:
  "parent (body_at two_blocks 0) = 0
   \<and> shock two_blocks \<lparr>bodyA = 0, bodyB = 1\<rparr> = Inr 6
   \<and> shockAbsorbed (body_at two_blocks 0) = None
   \<and> shockAbsorbed (body_at (snd (collisionStart [\<lparr>bodyA = 0, bodyB = 1\<rparr>] two_blocks)) 0) = Some 12"
proof -
  let ?pr = "\<lparr>bodyA = 0, bodyB = 1\<rparr> :: pair"
  have i: "bodyA ?pr = 0 \<or> bodyB ?pr = 0" by simp
  have p: "parent (body_at two_blocks 0) = 0" "shockAbsorbed (body_at two_blocks 0) = None"
    by (simp_all add: two_blocks_def mk_body_def)
  have d: "parent (body_at two_blocks (bodyA ?pr)) \<noteq> parent (body_at two_blocks (bodyB ?pr))"
    by (simp add: two_blocks_def mk_body_def)
  have "or0 (shockAbsorbed (body_at two_blocks 0)) = enat 0 \<and> floor_num 6 = enat 6
      \<and> (0::nat) + 6 < 2 ^ 53"
    by (simp add: p zero_enat_def floor_num_6 numeral_eq_enat)
  then have "shockAbsorbed (body_at (snd (collisionStart [?pr] two_blocks)) 0) = Some (enat (2 * (0 + 6)))"
    using own_parent_counts_twice [OF i p(1) d shock_two_blocks, where t = 0 and k = 6]
    by blast
  then have "shockAbsorbed (body_at (snd (collisionStart [?pr] two_blocks)) 0) = Some 12"
    by (simp add: numeral_eq_enat del: collisionStart.simps)
  then show ?thesis
    using shock_two_blocks p by (simp del: collisionStart.simps)
qed

lemma shock_2_3:
  assumes "\<not> isStatic (body_at s a)" "mass (body_at s a) = 2"
    "velocityPrev (body_at s a) = Some ra" "vector_at s ra = Vector 3 0"
    "\<not> isStatic (body_at s b)" "mass (body_at s b) = 1"
    "velocityPrev (body_at s b) = Some rb" "vector_at s rb = Vector 0 0"
  shows "shock s \<lparr>bodyA = a, bodyB = b\<rparr> = Inr 6"
  using assms by (simp add: shock_def momentum_def mult_def sub_def magnitude_def sqrt_36)

text \<open>
  C2, as stated, at two single-part blocks: each block is its own parent, so the first
  collision leaves 12 in the field, not 6.
\<close>

theorem first_collision_of_two_blocks_counterexample:
  "\<not> isStatic (body_at two_blocks 0) \<and> mass (body_at two_blocks 0) = 2
   \<and> map_option (vector_at two_blocks) (velocityPrev (body_at two_blocks 0)) = Some (Vector 3 0)
   \<and> \<not> isStatic (body_at two_blocks 1) \<and> mass (body_at two_blocks 1) = 1
   \<and> map_option (vector_at two_blocks) (velocityPrev (body_at two_blocks 1)) = Some (Vector 0 0)
   \<and> shockAbsorbed (body_at two_blocks 0) = None \<and> shockAbsorbed (body_at two_blocks 1) = None
   \<and> shock two_blocks \<lparr>bodyA = 0, bodyB = 1\<rparr> = Inr 6
   \<and> shockAbsorbed (body_at (snd (collisionStart [\<lparr>bodyA = 0, bodyB = 1\<rparr>] two_blocks)) 0) = Some 12
   \<and> shockAbsorbed (body_at (snd (collisionStart [\<lparr>bodyA = 0, bodyB = 1\<rparr>] two_blocks)) 0) \<noteq> Some 6"
proof -
  let ?pr = "\<lparr>bodyA = 0, bodyB = 1\<rparr> :: pair"
  have given: "\<not> isStatic (body_at two_blocks 0)" "mass (body_at two_blocks 0) = 2"
    "map_option (vector_at two_blocks) (velocityPrev (body_at two_blocks 0)) = Some (Vector 3 0)"
    "\<not> isStatic (body_at two_blocks 1)" "mass (body_at two_blocks 1) = 1"
    "map_option (vector_at two_blocks) (velocityPrev (body_at two_blocks 1)) = Some (Vector 0 0)"
    "shockAbsorbed (body_at two_blocks 0) = None" "shockAbsorbed (body_at two_blocks 1) = None"
    by (simp_all add: two_blocks_def mk_body_def)
  have pos: "(0::nat) = bodyA ?pr \<and> (1::nat) = bodyB ?pr \<or> 0 = bodyB ?pr \<and> 1 = bodyA ?pr"
    by simp
  have p: "parent (body_at two_blocks 0) = 0" "parent (body_at two_blocks 1) = 1"
    by (simp_all add: two_blocks_def mk_body_def)
  have apart: "{0, parent (body_at two_blocks 0)} \<inter> {1, parent (body_at two_blocks 1)} = {}"
    using p by simp
  have "collisionStart [?pr] two_blocks = (None, absorb (bodyB ?pr) 6 (absorb (bodyA ?pr) 6 two_blocks))"
    using shock_two_blocks by (rule collisionStart_single)
  then have "shockAbsorbed (body_at (snd (collisionStart [?pr] two_blocks)) (parent (body_at two_blocks 0))) =
      Some (dadd (if parent (body_at two_blocks 0) = 0
                       then dadd (or0 (shockAbsorbed (body_at two_blocks 0))) (floor_num 6)
                       else or0 (shockAbsorbed (body_at two_blocks (parent (body_at two_blocks 0)))))
                      (dadd (or0 (shockAbsorbed (body_at two_blocks 0))) (floor_num 6)))"
    using pair_values(1) [OF pos apart, of 6] by (simp only: snd_conv)
  then have r: "shockAbsorbed (body_at (snd (collisionStart [?pr] two_blocks)) 0) = Some 12"
    by (simp add: p given(7) floor_num_6 dadd_small del: collisionStart.simps)
  show ?thesis
    using given shock_two_blocks r by (simp del: collisionStart.simps)
qed

text \<open>
  C2, amended: A (dynamic, mass 2, previous velocity (3, 0)) and B (dynamic, mass 1,
  previous velocity (0, 0)) are parts of two different compound bodies, so that A, B
  and their parents are four different objects, each with \<open>shockAbsorbed\<close> absent or
  0. Then the shock is 6 and the handler leaves 6 in all four fields.
\<close>

theorem first_collision_of_two_parts:
  assumes "distinct [a, b, parent (body_at s a), parent (body_at s b)]"
    and "\<not> isStatic (body_at s a)" "mass (body_at s a) = 2"
    and "velocityPrev (body_at s a) = Some ra" "vector_at s ra = Vector 3 0"
    and "\<not> isStatic (body_at s b)" "mass (body_at s b) = 1"
    and "velocityPrev (body_at s b) = Some rb" "vector_at s rb = Vector 0 0"
    and "\<forall>r \<in> {a, b, parent (body_at s a), parent (body_at s b)}. or0 (shockAbsorbed (body_at s r)) = 0"
  shows "shock s \<lparr>bodyA = a, bodyB = b\<rparr> = Inr 6
     \<and> fst (collisionStart [\<lparr>bodyA = a, bodyB = b\<rparr>] s) = None
     \<and> (\<forall>r \<in> {a, b, parent (body_at s a), parent (body_at s b)}.
           shockAbsorbed (body_at (snd (collisionStart [\<lparr>bodyA = a, bodyB = b\<rparr>] s)) r) = Some 6)"
proof -
  let ?pr = "\<lparr>bodyA = a, bodyB = b\<rparr>"
  let ?s' = "absorb b 6 (absorb a 6 s)"
  have sh: "shock s ?pr = Inr 6"
    using assms(2-9) by (rule shock_2_3)
  have one: "collisionStart [?pr] s = (None, ?s')"
    using collisionStart_single [OF sh] by simp
  have pa: "shockAbsorbed (body_at ?s' x) = Some 6"
     and pp: "shockAbsorbed (body_at ?s' (parent (body_at s x))) = Some 6"
    if "x = a \<and> y = b \<or> x = b \<and> y = a" for x y
  proof -
    have apart: "{x, parent (body_at s x)} \<inter> {y, parent (body_at s y)} = {}"
      and ne: "parent (body_at s x) \<noteq> x"
      using assms(1) that by auto
    have z: "or0 (shockAbsorbed (body_at s x)) = 0"
      "or0 (shockAbsorbed (body_at s (parent (body_at s x)))) = 0"
      using assms(10) that by auto
    show "shockAbsorbed (body_at ?s' x) = Some 6"
      using pair_values(2) [OF that apart ne, of 6] by (simp add: z floor_num_6 dadd_small)
    show "shockAbsorbed (body_at ?s' (parent (body_at s x))) = Some 6"
      using pair_values(1) [OF that apart, of 6] ne by (simp add: z floor_num_6 dadd_small)
  qed
  show ?thesis
    unfolding one fst_conv snd_conv using sh pa [of a b] pa [of b a] pp [of a b] pp [of b a] by simp
qed

theorem first_collision_of_two_parts_witness:
  "distinct [0, 1, parent (body_at two_compounds 0), parent (body_at two_compounds 1)]
   \<and> shock two_compounds \<lparr>bodyA = 0, bodyB = 1\<rparr> = Inr 6
   \<and> shockAbsorbed (body_at (snd (collisionStart [\<lparr>bodyA = 0, bodyB = 1\<rparr>] two_compounds)) 0) = Some 6
   \<and> shockAbsorbed (body_at (snd (collisionStart [\<lparr>bodyA = 0, bodyB = 1\<rparr>] two_compounds)) 1) = Some 6
   \<and> shockAbsorbed (body_at (snd (collisionStart [\<lparr>bodyA = 0, bodyB = 1\<rparr>] two_compounds)) 2) = Some 6
   \<and> shockAbsorbed (body_at (snd (collisionStart [\<lparr>bodyA = 0, bodyB = 1\<rparr>] two_compounds)) 3) = Some 6"
proof -
  have d: "distinct [0, 1, parent (body_at two_compounds 0), parent (body_at two_compounds 1)]"
    by (simp add: two_compounds_def mk_body_def)
  have p: "parent (body_at two_compounds 0) = 2" "parent (body_at two_compounds 1) = 3"
    by (simp_all add: two_compounds_def mk_body_def)
  have h: "\<not> isStatic (body_at two_compounds 0)" "mass (body_at two_compounds 0) = 2"
    "velocityPrev (body_at two_compounds 0) = Some 0" "vector_at two_compounds 0 = Vector 3 0"
    "\<not> isStatic (body_at two_compounds 1)" "mass (body_at two_compounds 1) = 1"
    "velocityPrev (body_at two_compounds 1) = Some 1" "vector_at two_compounds 1 = Vector 0 0"
    "\<forall>r \<in> {0, 1, parent (body_at two_compounds 0), parent (body_at two_compounds 1)}.
       or0 (shockAbsorbed (body_at two_compounds r)) = 0"
    by (simp_all add: two_compounds_def mk_body_def)
  show ?thesis
    using first_collision_of_two_parts [OF d h] d p
    by (simp del: collisionStart.simps)
qed




lemma absorb_untouched:
  "r \<noteq> b \<Longrightarrow> r \<noteq> parent (body_at s b) \<Longrightarrow> body_at (absorb b mag s) r = body_at s r"
  by (simp add: absorb_def set_shockAbsorbed_def Let_def)

lemma only_shock_trans:
  assumes "\<And>r. body_at s1 r = (body_at s r)\<lparr>shockAbsorbed := shockAbsorbed (body_at s1 r)\<rparr>"
    and "\<And>r. body_at s2 r = (body_at s1 r)\<lparr>shockAbsorbed := shockAbsorbed (body_at s2 r)\<rparr>"
  shows "body_at s2 r = (body_at s r)\<lparr>shockAbsorbed := shockAbsorbed (body_at s2 r)\<rparr>"
proof -
  have "body_at s2 r = ((body_at s r)\<lparr>shockAbsorbed := shockAbsorbed (body_at s1 r)\<rparr>)\<lparr>shockAbsorbed := shockAbsorbed (body_at s2 r)\<rparr>"
    using assms(2) [of r] assms(1) [of r] by simp
  then show ?thesis by simp
qed

lemma pair_frame:
  assumes "collisionStart_pair pr s = Inr s'"
  shows "world s' = world s" and "vector_at s' = vector_at s"
    and "body_at s' r = (body_at s r)\<lparr>shockAbsorbed := shockAbsorbed (body_at s' r)\<rparr>"
    and "parent (body_at s' r) = parent (body_at s r)"
    and "r \<notin> {bodyA pr, bodyB pr, parent (body_at s (bodyA pr)), parent (body_at s (bodyB pr))}
         \<Longrightarrow> body_at s' r = body_at s r"
proof -
  from assms obtain mag where s': "s' = absorb (bodyB pr) mag (absorb (bodyA pr) mag s)"
    by (auto simp: collisionStart_pair_def split: sum.splits)
  show "world s' = world s" "vector_at s' = vector_at s"
    by (simp_all add: s' absorb_world absorb_vector_at)
  show "body_at s' r = (body_at s r)\<lparr>shockAbsorbed := shockAbsorbed (body_at s' r)\<rparr>"
    unfolding s' by (rule only_shock_trans) (rule absorb_frame)+
  show "parent (body_at s' r) = parent (body_at s r)"
    by (simp add: s' absorb_parent)
  show "body_at s' r = body_at s r"
    if "r \<notin> {bodyA pr, bodyB pr, parent (body_at s (bodyA pr)), parent (body_at s (bodyB pr))}"
    using that by (simp add: s' absorb_untouched absorb_parent)
qed

text \<open>
  C9: the handler removes nothing. For every pair list and every state, also when a pair
  throws, the world and the vector objects are as before, every body keeps all its
  fields but \<open>shockAbsorbed\<close>, and a body that is neither in a pair nor the parent of a
  body in a pair is not written at all.
\<close>

theorem collisionStart_only_writes_shockAbsorbed:
  "world (snd (collisionStart prs s)) = world s
   \<and> allBodies (world (snd (collisionStart prs s))) = allBodies (world s)
   \<and> vector_at (snd (collisionStart prs s)) = vector_at s
   \<and> (\<forall>r. body_at (snd (collisionStart prs s)) r =
            (body_at s r)\<lparr>shockAbsorbed := shockAbsorbed (body_at (snd (collisionStart prs s)) r)\<rparr>)
   \<and> (\<forall>r. (\<forall>pr \<in> set prs. r \<notin> {bodyA pr, bodyB pr, parent (body_at s (bodyA pr)),
                                       parent (body_at s (bodyB pr))})
          \<longrightarrow> body_at (snd (collisionStart prs s)) r = body_at s r)"
proof (induction prs arbitrary: s)
  case Nil
  show ?case by simp
next
  case (Cons pr prs)
  show ?case
  proof (cases "collisionStart_pair pr s")
    case (Inl e)
    then show ?thesis by simp
  next
    case (Inr s')
    let ?t = "snd (collisionStart prs s')"
    have eq: "snd (collisionStart (pr # prs) s) = ?t"
      using Inr by simp
    note f = pair_frame [OF Inr]
    note ih = Cons.IH [of s']
    have w: "world ?t = world s" using ih f(1) by simp
    have v: "vector_at ?t = vector_at s" using ih f(2) by simp
    have b: "body_at ?t r = (body_at s r)\<lparr>shockAbsorbed := shockAbsorbed (body_at ?t r)\<rparr>" for r
    proof (rule only_shock_trans)
      show "body_at s' r = (body_at s r)\<lparr>shockAbsorbed := shockAbsorbed (body_at s' r)\<rparr>" for r
        by (rule f(3))
      show "body_at ?t r = (body_at s' r)\<lparr>shockAbsorbed := shockAbsorbed (body_at ?t r)\<rparr>" for r
        using ih by blast
    qed
    have u: "body_at ?t r = body_at s r"
      if "\<forall>q \<in> set (pr # prs). r \<notin> {bodyA q, bodyB q, parent (body_at s (bodyA q)),
                                       parent (body_at s (bodyB q))}" for r
    proof -
      have "\<forall>q \<in> set prs. r \<notin> {bodyA q, bodyB q, parent (body_at s' (bodyA q)),
                                       parent (body_at s' (bodyB q))}"
        using that by (simp add: f(4))
      then have "body_at ?t r = body_at s' r" using ih by blast
      also have "\<dots> = body_at s r" using that by (intro f(5)) simp
      finally show ?thesis .
    qed
    show ?thesis unfolding eq using w v b u by simp
  qed
qed

theorem collisionStart_only_writes_shockAbsorbed_witness:
  "world (snd (collisionStart [\<lparr>bodyA = 0, bodyB = 1\<rparr>] two_compounds)) = Composite [2, 3] []
   \<and> 5 \<notin> {0, 1, parent (body_at two_compounds 0), parent (body_at two_compounds 1)}
   \<and> body_at (snd (collisionStart [\<lparr>bodyA = 0, bodyB = 1\<rparr>] two_compounds)) 5
       = body_at two_compounds 5"
proof -
  let ?pr = "\<lparr>bodyA = 0, bodyB = 1\<rparr> :: pair"
  have h: "\<forall>pr \<in> set [?pr]. (5::nat) \<notin> {bodyA pr, bodyB pr, parent (body_at two_compounds (bodyA pr)),
                                       parent (body_at two_compounds (bodyB pr))}"
    by (simp add: two_compounds_def mk_body_def)
  have w: "world two_compounds = Composite [2, 3] []"
    by (simp add: two_compounds_def)
  from collisionStart_only_writes_shockAbsorbed [of "[?pr]" two_compounds] h
  have "world (snd (collisionStart [?pr] two_compounds)) = world two_compounds"
    and "body_at (snd (collisionStart [?pr] two_compounds)) 5 = body_at two_compounds 5"
    by blast+
  then show ?thesis using h by (simp only: w) simp
qed

section \<open>Occurrences of a body in the world\<close>

lemma count_list_concat:
  "count_list (concat xss) x = sum_list (map (\<lambda>xs. count_list xs x) xss)"
  by (induction xss) simp_all

lemma count_list_remove1_other: "c \<noteq> b \<Longrightarrow> count_list (remove1 c bs) b = count_list bs b"
  by (induction bs) auto

lemma count_list_remove1_self: "count_list (remove1 b bs) b = count_list bs b - 1"
  by (induction bs) auto

lemma count_allBodies:
  "count_list (allBodies (Composite bs cs)) b =
     count_list bs b + sum_list (map (\<lambda>c. count_list (allBodies c) b) cs)"
  by (simp add: count_list_concat comp_def)

lemma sum_list_map_cong_set:
  "(\<And>c. c \<in> set cs \<Longrightarrow> f c = g c) \<Longrightarrow> sum_list (map f cs) = sum_list (map g cs)"
  by (induction cs) simp_all

lemma sum_list_map_pred:
  fixes f g :: "'a \<Rightarrow> nat"
  shows "(\<And>c. c \<in> set cs \<Longrightarrow> f c \<le> g c - 1) \<Longrightarrow> sum_list (map f cs) \<le> sum_list (map g cs) - 1"
proof (induction cs)
  case Nil
  show ?case by simp
next
  case (Cons c cs)
  have "f c \<le> g c - 1" using Cons.prems by simp
  moreover have "sum_list (map f cs) \<le> sum_list (map g cs) - 1"
    using Cons by simp
  ultimately show ?case by simp
qed

lemma count_removeBody_other:
  "c \<noteq> b \<Longrightarrow> count_list (allBodies (removeBody w c)) b = count_list (allBodies w) b"
proof (induction w)
  case (Composite bs cs)
  have "sum_list (map (\<lambda>x. count_list (allBodies (removeBody x c)) b) cs)
      = sum_list (map (\<lambda>x. count_list (allBodies x) b) cs)"
    using Composite by (intro sum_list_map_cong_set) simp
  then show ?case
    using Composite.prems by (simp add: count_list_concat comp_def count_list_remove1_other)
qed

lemma count_removeBody_self:
  "count_list (allBodies (removeBody w b)) b \<le> count_list (allBodies w) b - 1"
proof (induction w)
  case (Composite bs cs)
  have "sum_list (map (\<lambda>x. count_list (allBodies (removeBody x b)) b) cs)
      \<le> sum_list (map (\<lambda>x. count_list (allBodies x) b) cs) - 1"
    using Composite by (intro sum_list_map_pred) simp
  then show ?case
    by (simp add: count_list_concat comp_def count_list_remove1_self)
qed

lemma count_removeBody_le:
  "count_list (allBodies (removeBody w c)) b \<le> count_list (allBodies w) b"
proof (cases "c = b")
  case True
  then show ?thesis using count_removeBody_self [of w b] by simp
next
  case False
  then show ?thesis by (simp add: count_removeBody_other)
qed

lemma in_set_count: "b \<in> set xs \<longleftrightarrow> 0 < count_list xs b"
  using count_list_0_iff [of xs b] by auto

lemma removeBody_subset: "set (allBodies (removeBody w c)) \<subseteq> set (allBodies w)"
proof
  fix b assume "b \<in> set (allBodies (removeBody w c))"
  then have "0 < count_list (allBodies (removeBody w c)) b"
    by (simp only: in_set_count)
  then have "0 < count_list (allBodies w) b"
    using count_removeBody_le [of w c b] by simp
  then show "b \<in> set (allBodies w)"
    by (simp only: in_set_count)
qed

section \<open>Properties of the \<open>afterUpdate\<close> handler\<close>

lemma fold_afterUpdate_part:
  "fold (afterUpdate_part b) ps s =
     s\<lparr>body_at := (\<lambda>r. if r \<in> set ps then (body_at s r)\<lparr>angle := angle (body_at s b)\<rparr>
                         else body_at s r)\<rparr>"
proof (induction ps arbitrary: s)
  case Nil
  show ?case by simp
next
  case (Cons p ps)
  let ?s1 = "afterUpdate_part b p s"
  have a: "angle (body_at ?s1 b) = angle (body_at s b)"
    by (simp add: afterUpdate_part_def set_angle_def)
  have "fold (afterUpdate_part b) (p # ps) s = fold (afterUpdate_part b) ps ?s1"
    by simp
  also have "\<dots> = ?s1\<lparr>body_at := (\<lambda>r. if r \<in> set ps then (body_at ?s1 r)\<lparr>angle := angle (body_at s b)\<rparr>
                         else body_at ?s1 r)\<rparr>"
    unfolding Cons.IH [of ?s1] a ..
  also have "\<dots> = s\<lparr>body_at := (\<lambda>r. if r \<in> set (p # ps) then (body_at s r)\<lparr>angle := angle (body_at s b)\<rparr>
                         else body_at s r)\<rparr>"
    by (auto simp: afterUpdate_part_def set_angle_def fun_eq_iff)
  finally show ?case .
qed

lemma afterUpdate_body_body_at:
  "body_at (afterUpdate_body b s) r =
     (if 1 < length (parts (body_at s b)) \<and> r \<in> set (parts (body_at s b))
      then (body_at s r)\<lparr>angle := angle (body_at s b)\<rparr> else body_at s r)"
  by (simp add: afterUpdate_body_def Let_def fold_afterUpdate_part)

lemma afterUpdate_body_world:
  "world (afterUpdate_body b s) =
     (if label (body_at s b) = ''Block'' \<and> gt500 (shockAbsorbed (body_at s b))
      then removeBody (world s) b else world s)"
  by (simp add: afterUpdate_body_def Let_def fold_afterUpdate_part)

lemma afterUpdate_body_vector_at: "vector_at (afterUpdate_body b s) = vector_at s"
  by (simp add: afterUpdate_body_def Let_def fold_afterUpdate_part)

lemma afterUpdate_body_only_angle:
  "body_at (afterUpdate_body b s) r = (body_at s r)\<lparr>angle := angle (body_at (afterUpdate_body b s) r)\<rparr>"
  by (simp add: afterUpdate_body_body_at)

lemma fold_afterUpdate_body_only_angle:
  "body_at (fold afterUpdate_body bs s) r =
     (body_at s r)\<lparr>angle := angle (body_at (fold afterUpdate_body bs s) r)\<rparr>"
proof (induction bs arbitrary: s)
  case Nil
  show ?case by simp
next
  case (Cons b bs)
  let ?s1 = "afterUpdate_body b s"
  let ?t = "fold afterUpdate_body bs ?s1"
  have "body_at ?t r = (body_at ?s1 r)\<lparr>angle := angle (body_at ?t r)\<rparr>"
    by (rule Cons.IH)
  also have "\<dots> = ((body_at s r)\<lparr>angle := angle (body_at ?s1 r)\<rparr>)\<lparr>angle := angle (body_at ?t r)\<rparr>"
    using afterUpdate_body_only_angle [of b s r] by simp
  finally show ?case by simp
qed

lemma fold_afterUpdate_body_fields:
  "label (body_at (fold afterUpdate_body bs s) r) = label (body_at s r)"
  "shockAbsorbed (body_at (fold afterUpdate_body bs s) r) = shockAbsorbed (body_at s r)"
  "parts (body_at (fold afterUpdate_body bs s) r) = parts (body_at s r)"
  "parent (body_at (fold afterUpdate_body bs s) r) = parent (body_at s r)"
  by (subst fold_afterUpdate_body_only_angle, simp)+

lemma afterUpdate_body_fields:
  "label (body_at (afterUpdate_body b s) r) = label (body_at s r)"
  "shockAbsorbed (body_at (afterUpdate_body b s) r) = shockAbsorbed (body_at s r)"
  "parts (body_at (afterUpdate_body b s) r) = parts (body_at s r)"
  "parent (body_at (afterUpdate_body b s) r) = parent (body_at s r)"
  by (simp_all add: afterUpdate_body_body_at)

text \<open>A body that does not meet the removal test is never removed.\<close>

lemma fold_afterUpdate_body_keeps:
  assumes "\<not> (label (body_at s b) = ''Block'' \<and> gt500 (shockAbsorbed (body_at s b)))"
  shows "count_list (allBodies (world (fold afterUpdate_body bs s))) b = count_list (allBodies (world s)) b"
  using assms
proof (induction bs arbitrary: s)
  case Nil
  show ?case by simp
next
  case (Cons c bs)
  let ?s1 = "afterUpdate_body c s"
  have "\<not> (label (body_at ?s1 b) = ''Block'' \<and> gt500 (shockAbsorbed (body_at ?s1 b)))"
    using Cons.prems by (simp add: afterUpdate_body_fields)
  then have "count_list (allBodies (world (fold afterUpdate_body bs ?s1))) b
      = count_list (allBodies (world ?s1)) b"
    by (rule Cons.IH)
  also have "\<dots> = count_list (allBodies (world s)) b"
  proof (cases "label (body_at s c) = ''Block'' \<and> gt500 (shockAbsorbed (body_at s c))")
    case True
    then have "c \<noteq> b" using Cons.prems by auto
    then show ?thesis using True by (simp add: afterUpdate_body_world count_removeBody_other)
  next
    case False
    then show ?thesis by (auto simp: afterUpdate_body_world)
  qed
  finally show ?case by simp
qed

text \<open>A body that meets the test loses an occurrence at each of its visits.\<close>

lemma fold_afterUpdate_body_removes:
  assumes "label (body_at s b) = ''Block''" and "gt500 (shockAbsorbed (body_at s b))"
  shows "count_list (allBodies (world (fold afterUpdate_body bs s))) b
           \<le> count_list (allBodies (world s)) b - count_list bs b"
  using assms
proof (induction bs arbitrary: s)
  case Nil
  show ?case by simp
next
  case (Cons c bs)
  let ?s1 = "afterUpdate_body c s"
  have q: "label (body_at ?s1 b) = ''Block''" "gt500 (shockAbsorbed (body_at ?s1 b))"
    using Cons.prems by (simp_all add: afterUpdate_body_fields)
  have ih: "count_list (allBodies (world (fold afterUpdate_body bs ?s1))) b
      \<le> count_list (allBodies (world ?s1)) b - count_list bs b"
    using q by (rule Cons.IH)
  have "count_list (allBodies (world ?s1)) b \<le> count_list (allBodies (world s)) b - (if c = b then 1 else 0)"
    using Cons.prems count_removeBody_self [of "world s" b] count_removeBody_le [of "world s" c b]
    by (auto simp: afterUpdate_body_world)
  then show ?case using ih by auto
qed

lemma fold_afterUpdate_body_subset:
  "set (allBodies (world (fold afterUpdate_body bs s))) \<subseteq> set (allBodies (world s))"
proof (induction bs arbitrary: s)
  case Nil
  show ?case by simp
next
  case (Cons c bs)
  have "set (allBodies (world (afterUpdate_body c s))) \<subseteq> set (allBodies (world s))"
    using removeBody_subset [of "world s" c] by (simp add: afterUpdate_body_world)
  then show ?case using Cons.IH [of "afterUpdate_body c s"] by auto
qed

lemma owns_afterUpdate_body: "owns (afterUpdate_body c s) x = owns s x"
  by (simp add: owns_def afterUpdate_body_fields)

lemma owns_parent: "owns s c \<Longrightarrow> parent (body_at s c) = c"
  by (simp add: owns_def)

lemma owns_part: "owns s c \<Longrightarrow> p \<in> set (parts (body_at s c)) \<Longrightarrow> parent (body_at s p) = c"
  by (simp add: owns_def)

lemma fold_afterUpdate_body_sync:
  assumes "\<forall>c \<in> set bs \<union> {b}. owns s c"
    and "1 < length (parts (body_at s b))"
    and "b \<in> set bs \<or> (\<forall>p \<in> set (parts (body_at s b)). angle (body_at s p) = angle (body_at s b))"
  shows "\<forall>p \<in> set (parts (body_at s b)). angle (body_at (fold afterUpdate_body bs s) p) = angle (body_at s b)"
  using assms
proof (induction bs arbitrary: s)
  case Nil
  then show ?case by simp
next
  case (Cons c bs)
  let ?s1 = "afterUpdate_body c s"
  have ob: "owns s b" and oc: "owns s c" using Cons.prems(1) by simp_all
  have wf1: "\<forall>x \<in> set bs \<union> {b}. owns ?s1 x"
    using Cons.prems(1) by (simp add: owns_afterUpdate_body)
  have len1: "1 < length (parts (body_at ?s1 b))"
    using Cons.prems(2) by (simp add: afterUpdate_body_fields)
  have notpart: "x \<notin> set (parts (body_at s c))" if "c \<noteq> b" "parent (body_at s x) = b" for x
    using owns_part [OF oc, of x] that by auto
  have angle_b: "angle (body_at ?s1 b) = angle (body_at s b)"
  proof (cases "c = b")
    case True
    then show ?thesis by (simp add: afterUpdate_body_body_at)
  next
    case False
    then have "b \<notin> set (parts (body_at s c))"
      using notpart owns_parent [OF ob] by blast
    then show ?thesis by (simp add: afterUpdate_body_body_at)
  qed
  have sync1: "b \<in> set bs \<or> (\<forall>p \<in> set (parts (body_at ?s1 b)). angle (body_at ?s1 p) = angle (body_at ?s1 b))"
  proof (cases "b \<in> set bs")
    case True
    then show ?thesis by simp
  next
    case False
    have "angle (body_at ?s1 p) = angle (body_at s b)" if p: "p \<in> set (parts (body_at s b))" for p
    proof (cases "c = b")
      case True
      then show ?thesis using p Cons.prems(2) by (simp add: afterUpdate_body_body_at)
    next
      case ne: False
      then have "\<forall>p \<in> set (parts (body_at s b)). angle (body_at s p) = angle (body_at s b)"
        using Cons.prems(3) False by auto
      moreover have "p \<notin> set (parts (body_at s c))"
        using notpart [OF ne] owns_part [OF ob p] by blast
      ultimately show ?thesis using p by (simp add: afterUpdate_body_body_at)
    qed
    then show ?thesis by (simp add: afterUpdate_body_fields angle_b)
  qed
  have "\<forall>p \<in> set (parts (body_at ?s1 b)).
      angle (body_at (fold afterUpdate_body bs ?s1) p) = angle (body_at ?s1 b)"
    using wf1 len1 sync1 by (rule Cons.IH)
  then show ?case by (simp add: afterUpdate_body_fields angle_b)
qed

lemma wellformed_tower: "wellformed tower"
  by (simp add: wellformed_def owns_def tower_def mk_body_def)

lemma allBodies_tower: "allBodies (world tower) = [0, 1, 2, 4, 5]"
  by (simp add: tower_def)

text \<open>
  C6: in a well-formed world, after the \<open>afterUpdate\<close> pass every part of every
  compound body of the world (more than one part) has the angle of the compound body,
  which is the angle the body had before the pass.
\<close>

theorem compound_parts_share_angle:
  assumes "wellformed s" and "b \<in> set (allBodies (world s))"
    and "1 < length (parts (body_at s b))"
  shows "angle (body_at (afterUpdate s) b) = angle (body_at s b)
     \<and> (\<forall>p \<in> set (parts (body_at (afterUpdate s) b)).
           angle (body_at (afterUpdate s) p) = angle (body_at (afterUpdate s) b))"
proof -
  let ?W = "allBodies (world s)"
  have "\<forall>c \<in> set ?W \<union> {b}. owns s c"
    using assms(1,2) by (auto simp: wellformed_def)
  moreover have "b \<in> set ?W \<or> (\<forall>p \<in> set (parts (body_at s b)). angle (body_at s p) = angle (body_at s b))"
    using assms(2) by simp
  ultimately have all: "\<forall>p \<in> set (parts (body_at s b)).
      angle (body_at (fold afterUpdate_body ?W s) p) = angle (body_at s b)"
    using assms(3) by (intro fold_afterUpdate_body_sync)
  have "b \<in> set (parts (body_at s b))"
    using assms(1,2) by (simp add: wellformed_def owns_def)
  then have "angle (body_at (fold afterUpdate_body ?W s) b) = angle (body_at s b)"
    using all by blast
  then show ?thesis
    using all by (simp add: afterUpdate_def fold_afterUpdate_body_fields)
qed

theorem compound_parts_share_angle_witness:
  "wellformed tower \<and> 2 \<in> set (allBodies (world tower)) \<and> parts (body_at tower 2) = [2, 3]
   \<and> angle (body_at tower 2) = 1 \<and> angle (body_at tower 3) = 0
   \<and> angle (body_at (afterUpdate tower) 2) = 1 \<and> angle (body_at (afterUpdate tower) 3) = 1"
proof -
  have h: "2 \<in> set (allBodies (world tower))" "1 < length (parts (body_at tower 2))"
    by (simp_all add: tower_def mk_body_def)
  have p: "parts (body_at tower 2) = [2, 3]" "angle (body_at tower 2) = 1" "angle (body_at tower 3) = 0"
    by (simp_all add: tower_def mk_body_def)
  have "parts (body_at (afterUpdate tower) 2) = [2, 3]"
    by (simp add: afterUpdate_def fold_afterUpdate_body_fields p)
  then show ?thesis
    using compound_parts_share_angle [OF wellformed_tower h] wellformed_tower h p by simp
qed

text \<open>
  C4: a body of the world labelled \<open>Block\<close> whose \<open>shockAbsorbed\<close> exceeds 500 when
  the \<open>afterUpdate\<close> pass runs is not among the world's bodies after the pass, at any
  depth of the composite tree and however often it was listed; in a well-formed world
  none of its parts is in the world either.
\<close>

theorem damaged_block_is_removed:
  assumes "b \<in> set (allBodies (world s))"
    and "label (body_at s b) = ''Block''" and "gt500 (shockAbsorbed (body_at s b))"
  shows "b \<notin> set (allBodies (world (afterUpdate s)))
     \<and> (wellformed s \<longrightarrow> (\<forall>p \<in> set (parts (body_at s b)). \<not> in_world (afterUpdate s) p))"
proof -
  let ?W = "allBodies (world s)" and ?W' = "allBodies (world (afterUpdate s))"
  have "count_list ?W' b \<le> count_list ?W b - count_list ?W b"
    unfolding afterUpdate_def using assms(2,3) by (rule fold_afterUpdate_body_removes)
  then have gone: "b \<notin> set ?W'"
    by (simp add: in_set_count)
  have sub: "set ?W' \<subseteq> set ?W"
    unfolding afterUpdate_def by (rule fold_afterUpdate_body_subset)
  have "\<not> in_world (afterUpdate s) p" if wf: "wellformed s" and p: "p \<in> set (parts (body_at s b))" for p
  proof
    assume "in_world (afterUpdate s) p"
    then obtain c where c: "c \<in> set ?W'" "p \<in> set (parts (body_at s c))"
      using sub wf by (auto simp: in_world_def afterUpdate_def fold_afterUpdate_body_fields wellformed_def owns_def)
    then have "owns s c" "owns s b"
      using sub wf assms(1) by (auto simp: wellformed_def)
    then have "c = b"
      using owns_part [of s c p] owns_part [of s b p] c(2) p by simp
    then show False using c(1) gone by simp
  qed
  then show ?thesis using gone by blast
qed

theorem damaged_block_is_removed_witness:
  "wellformed tower \<and> 0 \<in> set (allBodies (world tower)) \<and> label (body_at tower 0) = ''Block''
   \<and> shockAbsorbed (body_at tower 0) = Some 501
   \<and> 0 \<notin> set (allBodies (world (afterUpdate tower)))
   \<and> \<not> in_world (afterUpdate tower) 0"
proof -
  have h: "0 \<in> set (allBodies (world tower))" "label (body_at tower 0) = ''Block''"
    "gt500 (shockAbsorbed (body_at tower 0))"
    by (simp_all add: tower_def mk_body_def)
  have p: "shockAbsorbed (body_at tower 0) = Some 501" "parts (body_at tower 0) = [0]"
    by (simp_all add: tower_def mk_body_def)
  show ?thesis
    using damaged_block_is_removed [OF h] wellformed_tower h p by simp
qed

text \<open>
  C10: a \<open>Block\<close> whose \<open>shockAbsorbed\<close> was never set: the comparison
  \<open>undefined > 500\<close> is false, nothing in the handler can throw, and the pass leaves
  every occurrence of the body in the world.
\<close>

theorem undamaged_block_is_kept:
  assumes "label (body_at s b) = ''Block''" and "shockAbsorbed (body_at s b) = None"
  shows "count_list (allBodies (world (afterUpdate s))) b = count_list (allBodies (world s)) b
     \<and> (b \<in> set (allBodies (world s)) \<longrightarrow> b \<in> set (allBodies (world (afterUpdate s))))"
proof -
  have "\<not> (label (body_at s b) = ''Block'' \<and> gt500 (shockAbsorbed (body_at s b)))"
    using assms(2) by simp
  then have "count_list (allBodies (world (afterUpdate s))) b = count_list (allBodies (world s)) b"
    unfolding afterUpdate_def by (rule fold_afterUpdate_body_keeps)
  then show ?thesis by (simp add: in_set_count)
qed

theorem undamaged_block_is_kept_witness:
  "label (body_at tower 1) = ''Block'' \<and> shockAbsorbed (body_at tower 1) = None
   \<and> 1 \<in> set (allBodies (world tower)) \<and> 1 \<in> set (allBodies (world (afterUpdate tower)))"
proof -
  have h: "label (body_at tower 1) = ''Block''" "shockAbsorbed (body_at tower 1) = None"
    by (simp_all add: tower_def mk_body_def)
  have w: "1 \<in> set (allBodies (world tower))"
    by (simp add: tower_def)
  show ?thesis
    using undamaged_block_is_kept [OF h] h w by simp
qed

section \<open>Properties of the \<open>beforeUpdate\<close> handler\<close>

lemma beforeUpdate_part_body_at:
  "body_at (beforeUpdate_part q s) r =
     (if \<not> (label (body_at s q) = ''Projectile'' \<and> isSleeping (body_at s q)) \<and> r = q
      then (body_at s q)\<lparr>velocityPrev := Some (velocity (body_at s q))\<rparr> else body_at s r)"
  by (simp add: beforeUpdate_part_def set_velocityPrev_def)


lemma beforeUpdate_part_vector_at: "vector_at (beforeUpdate_part q s) = vector_at s"
  by (simp add: beforeUpdate_part_def set_velocityPrev_def)

lemma beforeUpdate_part_only_velocityPrev:
  "body_at (beforeUpdate_part q s) r =
     (body_at s r)\<lparr>velocityPrev := velocityPrev (body_at (beforeUpdate_part q s) r)\<rparr>"
  by (simp add: beforeUpdate_part_body_at)

lemma fold_invariant:
  assumes "\<And>x s. I s \<Longrightarrow> I (f x s)" and "I s"
  shows "I (fold f xs s)"
  using assms(2) by (induction xs arbitrary: s) (simp_all add: assms(1))

lemma fold_only_velocityPrev:
  assumes "\<And>x s r. body_at (f x s) r = (body_at s r)\<lparr>velocityPrev := velocityPrev (body_at (f x s) r)\<rparr>"
  shows "body_at (fold f xs s) r = (body_at s r)\<lparr>velocityPrev := velocityPrev (body_at (fold f xs s) r)\<rparr>"
proof (induction xs arbitrary: s)
  case Nil
  show ?case by simp
next
  case (Cons x xs)
  let ?s1 = "f x s"
  let ?t = "fold f xs ?s1"
  have "body_at ?t r = (body_at ?s1 r)\<lparr>velocityPrev := velocityPrev (body_at ?t r)\<rparr>"
    by (rule Cons.IH)
  also have "\<dots> = ((body_at s r)\<lparr>velocityPrev := velocityPrev (body_at ?s1 r)\<rparr>)\<lparr>velocityPrev := velocityPrev (body_at ?t r)\<rparr>"
    using assms [of x s r] by simp
  finally show ?case by simp
qed

lemma fold_beforeUpdate_part_only_velocityPrev:
  "body_at (fold beforeUpdate_part ps s) r =
     (body_at s r)\<lparr>velocityPrev := velocityPrev (body_at (fold beforeUpdate_part ps s) r)\<rparr>"
  by (rule fold_only_velocityPrev) (rule beforeUpdate_part_only_velocityPrev)

lemma beforeUpdate_body_only_velocityPrev:
  "body_at (beforeUpdate_body b s) r =
     (body_at s r)\<lparr>velocityPrev := velocityPrev (body_at (beforeUpdate_body b s) r)\<rparr>"
  unfolding beforeUpdate_body_def by (rule fold_beforeUpdate_part_only_velocityPrev)

lemma fold_beforeUpdate_body_only_velocityPrev:
  "body_at (fold beforeUpdate_body bs s) r =
     (body_at s r)\<lparr>velocityPrev := velocityPrev (body_at (fold beforeUpdate_body bs s) r)\<rparr>"
  by (rule fold_only_velocityPrev) (rule beforeUpdate_body_only_velocityPrev)

lemma beforeUpdate_part_fields:
  "label (body_at (beforeUpdate_part q s) r) = label (body_at s r)"
  "isSleeping (body_at (beforeUpdate_part q s) r) = isSleeping (body_at s r)"
  "parts (body_at (beforeUpdate_part q s) r) = parts (body_at s r)"
  "velocity (body_at (beforeUpdate_part q s) r) = velocity (body_at s r)"
  by (simp_all add: beforeUpdate_part_body_at)

lemma fold_beforeUpdate_part_fields:
  "label (body_at (fold beforeUpdate_part ps s) r) = label (body_at s r)"
  "isSleeping (body_at (fold beforeUpdate_part ps s) r) = isSleeping (body_at s r)"
  "parts (body_at (fold beforeUpdate_part ps s) r) = parts (body_at s r)"
  "velocity (body_at (fold beforeUpdate_part ps s) r) = velocity (body_at s r)"
  by (subst fold_beforeUpdate_part_only_velocityPrev, simp)+

lemma beforeUpdate_body_fields:
  "label (body_at (beforeUpdate_body b s) r) = label (body_at s r)"
  "isSleeping (body_at (beforeUpdate_body b s) r) = isSleeping (body_at s r)"
  "parts (body_at (beforeUpdate_body b s) r) = parts (body_at s r)"
  "velocity (body_at (beforeUpdate_body b s) r) = velocity (body_at s r)"
  by (subst beforeUpdate_body_only_velocityPrev, simp)+

lemma fold_beforeUpdate_body_fields:
  "label (body_at (fold beforeUpdate_body bs s) r) = label (body_at s r)"
  "isSleeping (body_at (fold beforeUpdate_body bs s) r) = isSleeping (body_at s r)"
  "parts (body_at (fold beforeUpdate_body bs s) r) = parts (body_at s r)"
  "velocity (body_at (fold beforeUpdate_body bs s) r) = velocity (body_at s r)"
  by (subst fold_beforeUpdate_body_only_velocityPrev, simp)+

lemma fold_beforeUpdate_part_vector_at: "vector_at (fold beforeUpdate_part ps s) = vector_at s"
  by (rule fold_invariant [where I = "\<lambda>t. vector_at t = vector_at s"])
     (simp_all add: beforeUpdate_part_vector_at)

lemma fold_beforeUpdate_body_vector_at: "vector_at (fold beforeUpdate_body bs s) = vector_at s"
  by (rule fold_invariant [where I = "\<lambda>t. vector_at t = vector_at s"])
     (simp_all add: beforeUpdate_body_def fold_beforeUpdate_part_vector_at)






text \<open>The snapshot: written at a visit, and not changed by a later one.\<close>

lemma beforeUpdate_part_keeps_snapshot:
  "velocityPrev (body_at s p) = Some v \<and> velocity (body_at s p) = v \<Longrightarrow>
   velocityPrev (body_at (beforeUpdate_part q s) p) = Some v \<and> velocity (body_at (beforeUpdate_part q s) p) = v"
  by (auto simp: beforeUpdate_part_body_at)

lemma fold_beforeUpdate_part_keeps_snapshot:
  "velocityPrev (body_at s p) = Some v \<and> velocity (body_at s p) = v \<Longrightarrow>
   velocityPrev (body_at (fold beforeUpdate_part ps s) p) = Some v
   \<and> velocity (body_at (fold beforeUpdate_part ps s) p) = v"
  by (rule fold_invariant [where I = "\<lambda>t. velocityPrev (body_at t p) = Some v \<and> velocity (body_at t p) = v"])
     (rule beforeUpdate_part_keeps_snapshot)

lemma fold_beforeUpdate_body_keeps_snapshot:
  "velocityPrev (body_at s p) = Some v \<and> velocity (body_at s p) = v \<Longrightarrow>
   velocityPrev (body_at (fold beforeUpdate_body bs s) p) = Some v
   \<and> velocity (body_at (fold beforeUpdate_body bs s) p) = v"
  by (rule fold_invariant [where I = "\<lambda>t. velocityPrev (body_at t p) = Some v \<and> velocity (body_at t p) = v"])
     (simp only: beforeUpdate_body_def fold_beforeUpdate_part_keeps_snapshot)

lemma fold_beforeUpdate_part_snapshot:
  assumes "\<not> (label (body_at s p) = ''Projectile'' \<and> isSleeping (body_at s p))" and "p \<in> set ps"
  shows "velocityPrev (body_at (fold beforeUpdate_part ps s) p) = Some (velocity (body_at s p))"
  using assms
proof (induction ps arbitrary: s)
  case Nil
  then show ?case by simp
next
  case (Cons q ps)
  let ?s1 = "beforeUpdate_part q s"
  show ?case
  proof (cases "q = p")
    case True
    have "velocityPrev (body_at ?s1 p) = Some (velocity (body_at s p)) \<and> velocity (body_at ?s1 p) = velocity (body_at s p)"
      using Cons.prems(1) True by (simp add: beforeUpdate_part_body_at)
    then show ?thesis
      using fold_beforeUpdate_part_keeps_snapshot [of ?s1 p "velocity (body_at s p)" ps] by simp
  next
    case False
    then have "p \<in> set ps" using Cons.prems(2) by simp
    moreover have "\<not> (label (body_at ?s1 p) = ''Projectile'' \<and> isSleeping (body_at ?s1 p))"
      using Cons.prems(1) by (simp add: beforeUpdate_part_fields)
    ultimately have "velocityPrev (body_at (fold beforeUpdate_part ps ?s1) p) = Some (velocity (body_at ?s1 p))"
      by (intro Cons.IH)
    then show ?thesis by (simp add: beforeUpdate_part_fields)
  qed
qed

lemma fold_beforeUpdate_body_snapshot:
  assumes "\<not> (label (body_at s p) = ''Projectile'' \<and> isSleeping (body_at s p))"
    and "b \<in> set bs" and "p \<in> set (parts (body_at s b))"
  shows "velocityPrev (body_at (fold beforeUpdate_body bs s) p) = Some (velocity (body_at s p))"
  using assms
proof (induction bs arbitrary: s)
  case Nil
  then show ?case by simp
next
  case (Cons c bs)
  let ?s1 = "beforeUpdate_body c s"
  show ?case
  proof (cases "c = b")
    case True
    have "velocityPrev (body_at ?s1 p) = Some (velocity (body_at s p))"
      unfolding beforeUpdate_body_def True using Cons.prems(1,3) by (rule fold_beforeUpdate_part_snapshot)
    then have "velocityPrev (body_at ?s1 p) = Some (velocity (body_at s p)) \<and> velocity (body_at ?s1 p) = velocity (body_at s p)"
      by (simp add: beforeUpdate_body_fields)
    then show ?thesis
      using fold_beforeUpdate_body_keeps_snapshot [of ?s1 p "velocity (body_at s p)" bs] by simp
  next
    case False
    then have "b \<in> set bs" using Cons.prems(2) by simp
    moreover have "\<not> (label (body_at ?s1 p) = ''Projectile'' \<and> isSleeping (body_at ?s1 p))"
      using Cons.prems(1) by (simp add: beforeUpdate_body_fields)
    moreover have "p \<in> set (parts (body_at ?s1 b))"
      using Cons.prems(3) by (simp add: beforeUpdate_body_fields)
    ultimately have "velocityPrev (body_at (fold beforeUpdate_body bs ?s1) p) = Some (velocity (body_at ?s1 p))"
      by (intro Cons.IH)
    then show ?thesis by (simp add: beforeUpdate_body_fields)
  qed
qed







lemma beforeUpdate_snapshot:
  assumes "b \<in> set (allBodies (world s))" and "p \<in> set (parts (body_at s b))"
    and "\<not> (label (body_at s p) = ''Projectile'' \<and> isSleeping (body_at s p))"
  shows "velocityPrev (body_at (beforeUpdate s) p) = Some (velocity (body_at s p))
     \<and> velocity (body_at (beforeUpdate s) p) = velocity (body_at s p)
     \<and> vector_at (beforeUpdate s) = vector_at s"
  unfolding beforeUpdate_def
  using fold_beforeUpdate_body_snapshot [OF assms(3,1,2)]
  by (simp add: fold_beforeUpdate_body_fields fold_beforeUpdate_body_vector_at)

text \<open>
  C7: what the pass stores in \<open>velocityPrev\<close> is the part's velocity object itself, not
  a copy of it. Right after the pass the object holds the velocity from before the pass;
  once the integrator has written the new velocity (5, 0) into the object, \<open>velocityPrev\<close>
  reads (5, 0) too.
\<close>

theorem velocityPrev_follows_velocity:
  "velocityPrev (body_at launched 0) = None
   \<and> vector_at launched (velocity (body_at launched 0)) = Vector 3 0
   \<and> velocityPrev (body_at (beforeUpdate launched) 0) = Some (velocity (body_at (beforeUpdate launched) 0))
   \<and> map_option (vector_at (beforeUpdate launched)) (velocityPrev (body_at (beforeUpdate launched) 0))
        = Some (Vector 3 0)
   \<and> map_option (vector_at (Body_update_velocity 0 (Vector 5 0) (beforeUpdate launched)))
        (velocityPrev (body_at (Body_update_velocity 0 (Vector 5 0) (beforeUpdate launched)) 0))
        = Some (Vector 5 0)"
proof -
  have h: "0 \<in> set (allBodies (world launched))" "0 \<in> set (parts (body_at launched 0))"
    "\<not> (label (body_at launched 0) = ''Projectile'' \<and> isSleeping (body_at launched 0))"
    by (simp_all add: launched_def mk_body_def)
  have v: "velocity (body_at launched 0) = 0" "vector_at launched 0 = Vector 3 0"
    "velocityPrev (body_at launched 0) = None"
    by (simp_all add: launched_def mk_body_def)
  show ?thesis
    using beforeUpdate_snapshot [OF h] v by (simp add: Body_update_velocity_def)
qed

text \<open>
  The part of C7 that holds: after the pass, every part of every body of the world that
  is not a sleeping projectile has \<open>velocityPrev\<close> pointing at its velocity object,
  and no vector object has been written, so it reads the velocity from before the pass.
\<close>

theorem beforeUpdate_records_velocity:
  assumes "b \<in> set (allBodies (world s))" and "p \<in> set (parts (body_at s b))"
    and "\<not> (label (body_at s p) = ''Projectile'' \<and> isSleeping (body_at s p))"
  shows "velocityPrev (body_at (beforeUpdate s) p) = Some (velocity (body_at s p))
     \<and> velocity (body_at (beforeUpdate s) p) = velocity (body_at s p)
     \<and> vector_at (beforeUpdate s) (velocity (body_at s p)) = vector_at s (velocity (body_at s p))"
  using beforeUpdate_snapshot [OF assms] by simp

theorem beforeUpdate_records_velocity_witness:
  "2 \<in> set (allBodies (world tower)) \<and> 3 \<in> set (parts (body_at tower 2))
   \<and> label (body_at tower 3) = ''Block''
   \<and> velocityPrev (body_at (beforeUpdate tower) 3) = Some 3
   \<and> vector_at (beforeUpdate tower) 3 = Vector 0 0"
proof -
  have h: "2 \<in> set (allBodies (world tower))" "3 \<in> set (parts (body_at tower 2))"
    "\<not> (label (body_at tower 3) = ''Projectile'' \<and> isSleeping (body_at tower 3))"
    by (simp_all add: tower_def mk_body_def)
  have v: "label (body_at tower 3) = ''Block''" "velocity (body_at tower 3) = 3"
    "vector_at tower 3 = Vector 0 0"
    by (simp_all add: tower_def mk_body_def)
  show ?thesis
    using beforeUpdate_records_velocity [OF h] h(1,2) v by simp
qed

end
